theory Spec2Isabelle
  imports Main "HOL-Library.AList"
begin

section \<open>JavaScript strings\<close>

text \<open>
  A JavaScript string is a sequence of UTF-16 code units; a code unit is a natural
  number here.  The hook never sees bytes: \<^verbatim>\<open>decoder.decode(value, { stream: true })\<close>
  hands it text, so a chunk is the text the decoder returned for it.  \<open>js\<close> turns an
  Isabelle string literal into the code units of the same characters.
\<close>

type_synonym jsstring = "nat list"

definition js :: "string \<Rightarrow> jsstring" where
  "js s = map of_char s"

text \<open>\<^verbatim>\<open>String.prototype.trim\<close> removes WhiteSpace and LineTerminator code units from both ends.\<close>

definition is_js_space :: "nat \<Rightarrow> bool" where
  "is_js_space u \<longleftrightarrow>
     (9 \<le> u \<and> u \<le> 13) \<or> u = 32 \<or> u = 160 \<or> u = 5760 \<or> (8192 \<le> u \<and> u \<le> 8202) \<or>
     u = 8232 \<or> u = 8233 \<or> u = 8239 \<or> u = 8287 \<or> u = 12288 \<or> u = 65279"

definition trim :: "jsstring \<Rightarrow> jsstring" where
  "trim s = rev (dropWhile is_js_space (rev (dropWhile is_js_space s)))"

definition startsWith :: "jsstring \<Rightarrow> jsstring \<Rightarrow> bool" where
  "startsWith s p \<longleftrightarrow> take (length p) s = p"

definition slice :: "jsstring \<Rightarrow> nat \<Rightarrow> jsstring" where
  "slice s n = drop n s"

text \<open>\<^verbatim>\<open>chunk.split("\n")\<close>: the pieces between line feeds; never an empty array.\<close>

fun split_lines :: "jsstring \<Rightarrow> jsstring list" where
  "split_lines [] = [[]]"
| "split_lines (c # cs) =
     (let ls = split_lines cs in if c = 10 then [] # ls else (c # hd ls) # tl ls)"

text \<open>The decimal digits of a number, as \<^verbatim>\<open>String(n)\<close> writes them.\<close>

fun digits :: "nat \<Rightarrow> jsstring" where
  "digits n = (if n < 10 then [48 + n] else digits (n div 10) @ [48 + n mod 10])"

declare digits.simps [simp del]

section \<open>JSON values and \<^verbatim>\<open>JSON.parse\<close>\<close>

text \<open>
  A number keeps its literal: the hook stores and forwards numbers and never computes
  with them.  An object is the list of its properties in insertion order, one entry
  per key.
\<close>

datatype json =
    JNull
  | JBool bool
  | JNumber jsstring
  | JString jsstring
  | JArray "json list"
  | JObject "(jsstring \<times> json) list"

type_synonym jsobject = "(jsstring \<times> json) list"

datatype token =
    TLBrace | TRBrace | TLBracket | TRBracket | TColon | TComma
  | TString jsstring | TNumber jsstring | TTrue | TFalse | TNull

definition is_digit :: "nat \<Rightarrow> bool" where
  "is_digit u \<longleftrightarrow> 48 \<le> u \<and> u \<le> 57"

definition is_json_ws :: "nat \<Rightarrow> bool" where
  "is_json_ws u \<longleftrightarrow> u = 32 \<or> u = 9 \<or> u = 10 \<or> u = 13"

definition hex_value :: "nat \<Rightarrow> nat option" where
  "hex_value u =
     (if 48 \<le> u \<and> u \<le> 57 then Some (u - 48)
      else if 65 \<le> u \<and> u \<le> 70 then Some (u - 55)
      else if 97 \<le> u \<and> u \<le> 102 then Some (u - 87)
      else None)"

definition hex4 :: "nat \<Rightarrow> nat \<Rightarrow> nat \<Rightarrow> nat \<Rightarrow> nat option" where
  "hex4 a b c d =
     (case (hex_value a, hex_value b, hex_value c, hex_value d) of
        (Some w, Some x, Some y, Some z) \<Rightarrow> Some (((w * 16 + x) * 16 + y) * 16 + z)
      | _ \<Rightarrow> None)"

text \<open>The code unit a one-letter escape stands for: \<^verbatim>\<open>\" \\ \/ \b \f \n \r \t\<close>.\<close>

definition escape_unit :: "nat \<Rightarrow> nat option" where
  "escape_unit e =
     (if e = 34 then Some 34 else if e = 92 then Some 92 else if e = 47 then Some 47
      else if e = 98 then Some 8 else if e = 102 then Some 12 else if e = 110 then Some 10
      else if e = 114 then Some 13 else if e = 116 then Some 9 else None)"

definition cons_unit :: "nat \<Rightarrow> (jsstring \<times> jsstring) option \<Rightarrow> (jsstring \<times> jsstring) option" where
  "cons_unit u r = (case r of None \<Rightarrow> None | Some (s, rest) \<Rightarrow> Some (u # s, rest))"

text \<open>
  The body of a string literal, after its opening quote: the decoded string and the
  text after the closing quote.
\<close>

fun lex_string :: "jsstring \<Rightarrow> (jsstring \<times> jsstring) option" where
  "lex_string [] = None"
| "lex_string (c # cs) =
     (if c = 34 then Some ([], cs)
      else if c = 92 then
        (case cs of
           [] \<Rightarrow> None
         | e # es \<Rightarrow>
            (if e = 117 then
               (case es of
                  a # b # c # d # rest \<Rightarrow>
                    (case hex4 a b c d of
                       None \<Rightarrow> None
                     | Some u \<Rightarrow> cons_unit u (lex_string rest))
                | _ \<Rightarrow> None)
             else
               (case escape_unit e of
                  None \<Rightarrow> None
                | Some u \<Rightarrow> cons_unit u (lex_string es))))
      else if c < 32 then None
      else cons_unit c (lex_string cs))"

text \<open>
  A number literal: \<^verbatim>\<open>-? (0 | [1-9][0-9]*) (. [0-9]+)? ([eE] [+-]? [0-9]+)?\<close>; the literal
  and the text after it.
\<close>

definition lex_digits :: "jsstring \<Rightarrow> (jsstring \<times> jsstring) option" where
  "lex_digits s =
     (let ds = takeWhile is_digit s
      in if ds = [] then None else Some (ds, dropWhile is_digit s))"

definition lex_int :: "jsstring \<Rightarrow> (jsstring \<times> jsstring) option" where
  "lex_int s =
     (case lex_digits s of
        None \<Rightarrow> None
      | Some (ds, rest) \<Rightarrow> if 1 < length ds \<and> hd ds = 48 then None else Some (ds, rest))"

definition lex_frac :: "jsstring \<Rightarrow> (jsstring \<times> jsstring) option" where
  "lex_frac s =
     (case s of
        c # cs \<Rightarrow>
          (if c = 46 then
             (case lex_digits cs of None \<Rightarrow> None | Some (ds, rest) \<Rightarrow> Some (c # ds, rest))
           else Some ([], s))
      | [] \<Rightarrow> Some ([], s))"

definition lex_exp :: "jsstring \<Rightarrow> (jsstring \<times> jsstring) option" where
  "lex_exp s =
     (case s of
        c # cs \<Rightarrow>
          (if c = 101 \<or> c = 69 then
             (case cs of
                g # gs \<Rightarrow>
                  (if g = 43 \<or> g = 45 then
                     (case lex_digits gs of
                        None \<Rightarrow> None
                      | Some (ds, rest) \<Rightarrow> Some (c # g # ds, rest))
                   else
                     (case lex_digits cs of
                        None \<Rightarrow> None
                      | Some (ds, rest) \<Rightarrow> Some (c # ds, rest)))
              | [] \<Rightarrow> None)
           else Some ([], s))
      | [] \<Rightarrow> Some ([], s))"

definition lex_number :: "jsstring \<Rightarrow> (jsstring \<times> jsstring) option" where
  "lex_number s =
     (let (sign, s1) = (case s of c # cs \<Rightarrow> if c = 45 then ([c], cs) else ([], s) | [] \<Rightarrow> ([], s))
      in case lex_int s1 of
           None \<Rightarrow> None
         | Some (ds, s2) \<Rightarrow>
            (case lex_frac s2 of
               None \<Rightarrow> None
             | Some (fs, s3) \<Rightarrow>
                (case lex_exp s3 of
                   None \<Rightarrow> None
                 | Some (es, s4) \<Rightarrow> Some (sign @ ds @ fs @ es, s4))))"

definition cons_token :: "token \<Rightarrow> token list option \<Rightarrow> token list option" where
  "cons_token t r = map_option ((#) t) r"

lemma lex_string_shorter: "lex_string s = Some (v, rest) \<Longrightarrow> length rest < length s"
proof (induction s arbitrary: v rest rule: lex_string.induct)
  case 1
  then show ?case by simp
next
  case (2 c cs)
  show ?case
    using "2.prems" "2.IH"
    by (fastforce simp: cons_unit_def split: if_splits list.splits option.splits)
qed

lemma lex_digits_shorter: "lex_digits s = Some (v, rest) \<Longrightarrow> length rest < length s"
proof -
  assume a: "lex_digits s = Some (v, rest)"
  then have "takeWhile is_digit s \<noteq> []" and r: "rest = dropWhile is_digit s"
    by (auto simp: lex_digits_def Let_def split: if_splits)
  then have "length (takeWhile is_digit s) > 0" by simp
  moreover have "length (takeWhile is_digit s) + length (dropWhile is_digit s) = length s"
    by (metis length_append takeWhile_dropWhile_id)
  ultimately show ?thesis unfolding r by linarith
qed

lemma lex_frac_shorter: "lex_frac s = Some (v, rest) \<Longrightarrow> length rest \<le> length s"
  by (auto simp: lex_frac_def split: list.splits if_splits option.splits
      dest!: lex_digits_shorter)

lemma lex_exp_shorter: "lex_exp s = Some (v, rest) \<Longrightarrow> length rest \<le> length s"
  by (auto simp: lex_exp_def split: list.splits if_splits option.splits
      dest!: lex_digits_shorter)

lemma lex_int_shorter: "lex_int s = Some (v, rest) \<Longrightarrow> length rest < length s"
  by (auto simp: lex_int_def split: option.splits if_splits dest: lex_digits_shorter)

lemma lex_number_shorter: "lex_number s = Some (v, rest) \<Longrightarrow> length rest < length s"
proof -
  assume a: "lex_number s = Some (v, rest)"
  obtain sign s1 where s1: "(case s of c # cs \<Rightarrow> if c = 45 then ([c], cs) else ([], s) | [] \<Rightarrow> ([], s)) = (sign, s1)"
    by force
  then have l1: "length s1 \<le> length s"
    by (auto split: list.splits if_splits)
  from a s1 obtain ds s2 fs s3 es where
    i: "lex_int s1 = Some (ds, s2)" and f: "lex_frac s2 = Some (fs, s3)"
    and e: "lex_exp s3 = Some (es, rest)"
    by (auto simp: lex_number_def split: option.splits)
  show ?thesis
    using l1 lex_int_shorter [OF i] lex_frac_shorter [OF f] lex_exp_shorter [OF e] by linarith
qed

text \<open>
  The tokens of a JSON text; \<open>None\<close> where no token starts (the \<^verbatim>\<open>SyntaxError\<close> of
  \<^verbatim>\<open>JSON.parse\<close>).
\<close>

function tokenize :: "jsstring \<Rightarrow> token list option" where
  "tokenize [] = Some []"
| "tokenize (c # cs) =
     (if is_json_ws c then tokenize cs
      else if c = 123 then cons_token TLBrace (tokenize cs)
      else if c = 125 then cons_token TRBrace (tokenize cs)
      else if c = 91 then cons_token TLBracket (tokenize cs)
      else if c = 93 then cons_token TRBracket (tokenize cs)
      else if c = 58 then cons_token TColon (tokenize cs)
      else if c = 44 then cons_token TComma (tokenize cs)
      else if c = 34 then
        (case lex_string cs of
           None \<Rightarrow> None
         | Some (s, rest) \<Rightarrow> cons_token (TString s) (tokenize rest))
      else if c = 45 \<or> is_digit c then
        (case lex_number (c # cs) of
           None \<Rightarrow> None
         | Some (n, rest) \<Rightarrow> cons_token (TNumber n) (tokenize rest))
      else if startsWith (c # cs) (js ''true'') then cons_token TTrue (tokenize (drop 3 cs))
      else if startsWith (c # cs) (js ''false'') then cons_token TFalse (tokenize (drop 4 cs))
      else if startsWith (c # cs) (js ''null'') then cons_token TNull (tokenize (drop 3 cs))
      else None)"
  by pat_completeness auto
termination
proof (relation "measure length", goal_cases)
  case (9 c cs x2 x y)
  then show ?case using lex_string_shorter [of cs x y] by simp
next
  case (10 c cs x2 x y)
  then show ?case using lex_number_shorter [of "c # cs" x y] by simp
qed auto

declare tokenize.simps [simp del]

text \<open>
  The parser runs over the tokens with a stack of the arrays and objects that are
  still open: an array with the elements read so far, an object with the members read
  so far and the key whose value is being read.  A repeated key keeps its first
  position and takes the last value, as \<^verbatim>\<open>JSON.parse\<close> does.
\<close>

datatype frame = ArrFrame "json list" | ObjFrame "(jsstring \<times> json) list" jsstring

fun parse_value :: "frame list \<Rightarrow> token list \<Rightarrow> json option"
  and parse_member :: "(jsstring \<times> json) list \<Rightarrow> frame list \<Rightarrow> token list \<Rightarrow> json option"
  and parse_after :: "json \<Rightarrow> frame list \<Rightarrow> token list \<Rightarrow> json option" where
  "parse_value st [] = None"
| "parse_value st (TNull # ts) = parse_after JNull st ts"
| "parse_value st (TTrue # ts) = parse_after (JBool True) st ts"
| "parse_value st (TFalse # ts) = parse_after (JBool False) st ts"
| "parse_value st (TNumber n # ts) = parse_after (JNumber n) st ts"
| "parse_value st (TString s # ts) = parse_after (JString s) st ts"
| "parse_value st (TLBracket # TRBracket # ts) = parse_after (JArray []) st ts"
| "parse_value st (TLBracket # ts) = parse_value (ArrFrame [] # st) ts"
| "parse_value st (TLBrace # TRBrace # ts) = parse_after (JObject []) st ts"
| "parse_value st (TLBrace # ts) = parse_member [] st ts"
| "parse_value st (_ # ts) = None"
| "parse_member ms st (TString k # TColon # ts) = parse_value (ObjFrame ms k # st) ts"
| "parse_member ms st _ = None"
| "parse_after v [] ts = (if ts = [] then Some v else None)"
| "parse_after v (ArrFrame es # st) (TComma # ts) = parse_value (ArrFrame (es @ [v]) # st) ts"
| "parse_after v (ArrFrame es # st) (TRBracket # ts) = parse_after (JArray (es @ [v])) st ts"
| "parse_after v (ObjFrame ms k # st) (TComma # ts) = parse_member (AList.update k v ms) st ts"
| "parse_after v (ObjFrame ms k # st) (TRBrace # ts) =
     parse_after (JObject (AList.update k v ms)) st ts"
| "parse_after v _ _ = None"

definition JSON_parse :: "jsstring \<Rightarrow> json option" where
  "JSON_parse s = (case tokenize s of None \<Rightarrow> None | Some ts \<Rightarrow> parse_value [] ts)"

section \<open>The state of \<^verbatim>\<open>useStreamingResponse\<close>\<close>

datatype ConnectionStatus = Idle | Connecting | Connected | Completed | Error | Stopped

text \<open>
  What the hook does to the outside, in the order it does it: the calls of the four
  optional observers of \<^verbatim>\<open>StreamingOptions\<close> and the call of \<^verbatim>\<open>fetch\<close>.  The argument of
  \<^verbatim>\<open>onData\<close> is \<open>None\<close> when the hook passes \<^verbatim>\<open>undefined\<close>.  Observers are taken not to
  throw.  An observer may call \<^verbatim>\<open>stopStreaming\<close> or \<^verbatim>\<open>reset\<close>; such a call acts on the hook at
  the point where the observer runs.
\<close>

datatype call =
    OnData "json option"
  | OnError jsstring
  | OnComplete
  | OnStatusChange ConnectionStatus
  | Fetch

record StreamingState =
  data :: jsobject
  isStreaming :: bool
  error :: "jsstring option"
  connectionStatus :: ConnectionStatus

text \<open>
  The hook: its state, \<^verbatim>\<open>abortControllerRef.current\<close> (\<open>None\<close> for \<^verbatim>\<open>null\<close>, otherwise
  whether the controller's signal is aborted) and the calls made so far.
\<close>

record hook = StreamingState +
  abortController :: "bool option"
  calls :: "call list"

definition initial_hook :: hook where
  "initial_hook =
     \<lparr>data = [], isStreaming = False, error = None, connectionStatus = Idle,
      abortController = None, calls = []\<rparr>"

text \<open>
  The \<^verbatim>\<open>state\<close> that a render of the hook holds, and that the functions created by that
  render close over.  \<^verbatim>\<open>updateState\<close> and \<^verbatim>\<open>setState\<close> change the hook, never a \<^verbatim>\<open>state\<close>
  that a render has already taken.
\<close>

definition render :: "hook \<Rightarrow> StreamingState" where
  "render h =
     \<lparr>data = data h, isStreaming = isStreaming h, error = error h,
      connectionStatus = connectionStatus h\<rparr>"

text \<open>A thrown value: an \<^verbatim>\<open>Error\<close> instance with its \<^verbatim>\<open>name\<close> and \<^verbatim>\<open>message\<close>, or anything else.\<close>

datatype thrown = ErrorObject jsstring jsstring | NotAnError

definition is_abort :: "thrown \<Rightarrow> bool" where
  "is_abort e = (case e of ErrorObject n m \<Rightarrow> n = js ''AbortError'' | NotAnError \<Rightarrow> False)"

definition updateConnectionStatus :: "hook \<Rightarrow> ConnectionStatus \<Rightarrow> hook" where
  "updateConnectionStatus h s =
     h\<lparr>connectionStatus := s, calls := calls h @ [OnStatusChange s]\<rparr>"

text \<open>
  The three lines \<^verbatim>\<open>updateConnectionStatus("completed"); updateState({ isStreaming: false });
  options.onComplete?.()\<close> that end a stream.
\<close>

definition complete :: "hook \<Rightarrow> hook" where
  "complete h =
     (let h1 = updateConnectionStatus h Completed;
          h2 = h1\<lparr>isStreaming := False\<rparr>
      in h2\<lparr>calls := calls h2 @ [OnComplete]\<rparr>)"

section \<open>Object spread\<close>

text \<open>
  The own enumerable properties that \<^verbatim>\<open>...v\<close> copies: the members of an object, the
  elements of an array and the code units of a string under their indices, nothing
  for the other values and for \<^verbatim>\<open>undefined\<close>.
\<close>

definition index_keys :: "nat \<Rightarrow> jsstring list" where
  "index_keys n = map digits [0..<n]"

fun own_props :: "json \<Rightarrow> (jsstring \<times> json) list" where
  "own_props (JObject kvs) = kvs"
| "own_props (JArray xs) = zip (index_keys (length xs)) xs"
| "own_props (JString s) = zip (index_keys (length s)) (map (\<lambda>u. JString [u]) s)"
| "own_props _ = []"

definition own_props_opt :: "json option \<Rightarrow> (jsstring \<times> json) list" where
  "own_props_opt v = (case v of None \<Rightarrow> [] | Some d \<Rightarrow> own_props d)"

text \<open>
  \<^verbatim>\<open>{ ...a, ...b }\<close>: a new object that receives the properties of \<open>a\<close>, then those of
  \<open>b\<close>; a key that is already there keeps its place and takes the new value.  The
  list keeps the order in which keys were first set; that an engine enumerates keys
  that look like array indices before the others is not modelled.
\<close>

definition set_props :: "(jsstring \<times> json) list \<Rightarrow> jsobject \<Rightarrow> jsobject" where
  "set_props ps obj = fold (\<lambda>(k, v). AList.update k v) ps obj"

definition merge :: "jsobject \<Rightarrow> (jsstring \<times> json) list \<Rightarrow> jsobject" where
  "merge a b = set_props b (set_props a [])"

text \<open>
  \<^verbatim>\<open>data.type\<close> and \<^verbatim>\<open>data.object\<close> on a value that is not \<^verbatim>\<open>null\<close>: the member of an
  object, \<^verbatim>\<open>undefined\<close> on anything else (arrays, strings, numbers and booleans have no
  property of either name).
\<close>

fun get_prop :: "json \<Rightarrow> jsstring \<Rightarrow> json option" where
  "get_prop (JObject kvs) k = map_of kvs k"
| "get_prop _ k = None"

text \<open>\<^verbatim>\<open>data && typeof data === "object"\<close> on a parsed value: arrays and objects.\<close>

fun is_object_value :: "json \<Rightarrow> bool" where
  "is_object_value (JObject kvs) = True"
| "is_object_value (JArray xs) = True"
| "is_object_value _ = False"

section \<open>\<^verbatim>\<open>processStream\<close>\<close>

datatype ctl = Continue | Return

text \<open>
  The body of the inner \<^verbatim>\<open>try\<close> after \<^verbatim>\<open>JSON.parse\<close> has returned \<open>d\<close>.  Reading \<^verbatim>\<open>data.type\<close>
  of \<^verbatim>\<open>null\<close> throws a \<^verbatim>\<open>TypeError\<close>, which the inner \<^verbatim>\<open>catch\<close> swallows.
\<close>

definition handle_data :: "hook \<Rightarrow> json \<Rightarrow> hook \<times> ctl" where
  "handle_data h d =
     (let h1 = (if is_object_value d
                then h\<lparr>data := merge (data h) (own_props d), calls := calls h @ [OnData (Some d)]\<rparr>
                else h)
      in if d = JNull then (h1, Continue)
         else if get_prop d (js ''type'') = Some (JString (js ''object'')) then
           (h1\<lparr>data := merge (data h1) (own_props_opt (get_prop d (js ''object''))),
               calls := calls h1 @ [OnData (get_prop d (js ''object''))]\<rparr>, Continue)
         else if get_prop d (js ''type'') = Some (JString (js ''finish'')) then
           (complete h1, Return)
         else (h1, Continue))"

text \<open>The body of \<^verbatim>\<open>for (const line of lines)\<close>.\<close>

definition process_line :: "hook \<Rightarrow> jsstring \<Rightarrow> hook \<times> ctl" where
  "process_line h line =
     (if trim line = [] then (h, Continue)
      else if startsWith line (js ''data: '') then
        (let jsonStr = trim (slice line 6)
         in if jsonStr = js ''[DONE]'' then (complete h, Return)
            else (case JSON_parse jsonStr of
                    None \<Rightarrow> (h, Continue)
                  | Some d \<Rightarrow> handle_data h d))
      else (h, Continue))"

fun process_lines :: "hook \<Rightarrow> jsstring list \<Rightarrow> hook \<times> ctl" where
  "process_lines h [] = (h, Continue)"
| "process_lines h (line # lines) =
     (case process_line h line of
        (h', Return) \<Rightarrow> (h', Return)
      | (h', Continue) \<Rightarrow> process_lines h' lines)"

text \<open>
  What \<^verbatim>\<open>await reader.read()\<close> gives: a chunk (the text the decoder makes of it), the
  end of the stream, or a rejection.
\<close>

datatype read_result = ReadValue jsstring | ReadDone | ReadThrows thrown

text \<open>The \<^verbatim>\<open>catch (streamError)\<close> of \<^verbatim>\<open>processStream\<close>.\<close>

definition stream_catch :: "hook \<Rightarrow> thrown \<Rightarrow> hook" where
  "stream_catch h e =
     (if is_abort e then updateConnectionStatus h Stopped
      else
        (let errorMessage = js ''Error processing stream'';
             h1 = h\<lparr>error := Some errorMessage, isStreaming := False\<rparr>;
             h2 = updateConnectionStatus h1 Error
         in h2\<lparr>calls := calls h2 @ [OnError errorMessage]\<rparr>))"

text \<open>One turn of \<^verbatim>\<open>while (true)\<close>, from the result of the read.\<close>

definition read_step :: "hook \<Rightarrow> read_result \<Rightarrow> hook \<times> ctl" where
  "read_step h r =
     (case r of
        ReadThrows e \<Rightarrow> (stream_catch h e, Return)
      | ReadDone \<Rightarrow> (complete h, Return)
      | ReadValue chunk \<Rightarrow> process_lines h (split_lines chunk))"

text \<open>
  The loop over the reads that have settled so far.  \<open>Continue\<close> in the result says
  that the loop is waiting for the next read.
\<close>

fun processStream :: "hook \<Rightarrow> read_result list \<Rightarrow> hook \<times> ctl" where
  "processStream h [] = (h, Continue)"
| "processStream h (r # rs) =
     (case read_step h r of
        (h', Return) \<Rightarrow> (h', Return)
      | (h', Continue) \<Rightarrow> processStream h' rs)"

section \<open>\<^verbatim>\<open>startStreaming\<close>, \<^verbatim>\<open>stopStreaming\<close>, \<^verbatim>\<open>reset\<close> and the cleanup\<close>

text \<open>
  What \<^verbatim>\<open>await fetch(...)\<close> gives: a response with its status and, when it has a body,
  the reads of that body, or a rejection.  \<^verbatim>\<open>response.ok\<close> holds for the statuses 200 to
  299.
\<close>

datatype fetch_result = FetchResponse nat "read_result list option" | FetchThrows thrown

definition response_ok :: "nat \<Rightarrow> bool" where
  "response_ok status \<longleftrightarrow> 200 \<le> status \<and> status \<le> 299"

text \<open>The \<^verbatim>\<open>catch (err)\<close> of \<^verbatim>\<open>startStreaming\<close>.\<close>

definition start_catch :: "hook \<Rightarrow> thrown \<Rightarrow> hook" where
  "start_catch h err =
     (if is_abort err then updateConnectionStatus h Stopped
      else
        (let errorMessage = js ''Failed to start streaming: '' @
               (case err of ErrorObject n m \<Rightarrow> m | NotAnError \<Rightarrow> js ''Unknown error'');
             h1 = h\<lparr>error := Some errorMessage, isStreaming := False\<rparr>;
             h2 = updateConnectionStatus h1 Error
         in h2\<lparr>calls := calls h2 @ [OnError errorMessage]\<rparr>))"

text \<open>\<^verbatim>\<open>startStreaming\<close> up to the call of \<^verbatim>\<open>fetch\<close>, when the guard lets it through.\<close>

definition begin_request :: "hook \<Rightarrow> hook" where
  "begin_request h =
     (let h1 = h\<lparr>isStreaming := True, error := None, data := []\<rparr>;
          h2 = updateConnectionStatus h1 Connecting;
          h3 = h2\<lparr>abortController := Some False\<rparr>
      in h3\<lparr>calls := calls h3 @ [Fetch]\<rparr>)"

text \<open>\<^verbatim>\<open>startStreaming\<close> from the point where \<^verbatim>\<open>fetch\<close> has settled.\<close>

definition on_response :: "hook \<Rightarrow> fetch_result \<Rightarrow> hook" where
  "on_response h fr =
     (case fr of
        FetchThrows e \<Rightarrow> start_catch h e
      | FetchResponse status body \<Rightarrow>
          if \<not> response_ok status then
            start_catch h (ErrorObject (js ''Error'') (js ''HTTP error! status: '' @ digits status))
          else
            (case body of
               None \<Rightarrow> start_catch h (ErrorObject (js ''Error'') (js ''No response body''))
             | Some reads \<Rightarrow> fst (processStream (updateConnectionStatus h Connected) reads)))"

text \<open>
  \<^verbatim>\<open>startStreaming\<close>, as created by a render that holds \<open>state\<close>, called on the hook \<open>h\<close>.
  The guard \<^verbatim>\<open>if (state.isStreaming) return\<close> reads the render's \<open>state\<close>; everything after
  it acts on the hook.
\<close>

definition startStreaming :: "StreamingState \<Rightarrow> hook \<Rightarrow> fetch_result \<Rightarrow> hook" where
  "startStreaming state h fr =
     (if isStreaming state then h else on_response (begin_request h) fr)"

definition abort :: "hook \<Rightarrow> hook" where
  "abort h = h\<lparr>abortController := map_option (\<lambda>_. True) (abortController h)\<rparr>"

definition stopStreaming :: "hook \<Rightarrow> hook" where
  "stopStreaming h = updateConnectionStatus ((abort h)\<lparr>isStreaming := False\<rparr>) Stopped"

definition reset :: "hook \<Rightarrow> hook" where
  "reset h = (abort h)\<lparr>data := [], isStreaming := False, error := None, connectionStatus := Idle\<rparr>"

text \<open>The cleanup that \<^verbatim>\<open>useEffect\<close> runs when the component is unmounted.\<close>

definition unmount :: "hook \<Rightarrow> hook" where
  "unmount h = abort h"

section \<open>The transport and the abort signal\<close>





section \<open>Plain records\<close>

text \<open>
  A line that carries a plain record: the record prefix, then a JSON object whose
  \<^verbatim>\<open>type\<close> is neither \<^verbatim>\<open>"object"\<close> nor \<^verbatim>\<open>"finish"\<close>.
\<close>

definition plain_record :: "jsstring \<Rightarrow> jsobject \<Rightarrow> bool" where
  "plain_record l kvs \<longleftrightarrow>
     startsWith l (js ''data: '') \<and> JSON_parse (trim (slice l 6)) = Some (JObject kvs) \<and>
     map_of kvs (js ''type'') \<noteq> Some (JString (js ''object'')) \<and>
     map_of kvs (js ''type'') \<noteq> Some (JString (js ''finish''))"

section \<open>Evaluation and the structure of the loops\<close>

lemmas lex_defs = JSON_parse_def tokenize.simps is_json_ws_def cons_token_def is_digit_def
  startsWith_def cons_unit_def lex_number_def lex_int_def lex_frac_def lex_exp_def lex_digits_def
  hex4_def hex_value_def escape_unit_def
lemmas str_defs = js_def trim_def is_js_space_def slice_def startsWith_def

lemma data_prefix_not_blank: "startsWith l (js ''data: '') \<Longrightarrow> trim l \<noteq> []"
proof
  assume s: "startsWith l (js ''data: '')" and t: "trim l = []"
  from s obtain t' where l: "l = 100 # t'"
    by (cases l) (auto simp: startsWith_def js_def)
  have n: "\<not> is_js_space 100" by (simp add: is_js_space_def)
  have d: "dropWhile is_js_space l = l"
    unfolding l using n by simp
  from t have "dropWhile is_js_space (rev (dropWhile is_js_space l)) = []"
    unfolding trim_def by (simp only: rev_is_Nil_conv)
  then have "\<forall>u \<in> set (rev l). is_js_space u"
    unfolding d by (simp only: dropWhile_eq_Nil_conv)
  moreover have "100 \<in> set (rev l)"
    unfolding l by simp
  ultimately show False using n by blast
qed

lemma done_not_json: "JSON_parse (js ''[DONE]'') = None"
  by (simp add: js_def lex_defs)

lemma process_lines_append:
  "process_lines h (xs @ ys) =
     (case process_lines h xs of
        (h', Return) \<Rightarrow> (h', Return)
      | (h', Continue) \<Rightarrow> process_lines h' ys)"
  by (induction xs arbitrary: h) (auto split: prod.splits ctl.splits)

lemma processStream_append:
  "processStream h (xs @ ys) =
     (case processStream h xs of
        (h', Return) \<Rightarrow> (h', Return)
      | (h', Continue) \<Rightarrow> processStream h' ys)"
  by (induction xs arbitrary: h) (auto split: prod.splits ctl.splits)

lemma complete_status: "connectionStatus (complete h) = Completed \<and> \<not> isStreaming (complete h)"
  by (simp add: complete_def updateConnectionStatus_def Let_def)

lemma handle_data_Return:
  "handle_data h d = (h', Return) \<Longrightarrow> connectionStatus h' = Completed \<and> \<not> isStreaming h'"
  by (auto simp: handle_data_def Let_def complete_status split: if_splits)

lemma process_line_Return:
  "process_line h l = (h', Return) \<Longrightarrow> connectionStatus h' = Completed \<and> \<not> isStreaming h'"
  by (auto simp: process_line_def Let_def complete_status split: if_splits option.splits
      dest: handle_data_Return)

lemma process_lines_Return:
  "process_lines h ls = (h', Return) \<Longrightarrow> connectionStatus h' = Completed \<and> \<not> isStreaming h'"
proof (induction ls arbitrary: h)
  case Nil
  then show ?case by simp
next
  case (Cons l ls)
  obtain h1 c where p: "process_line h l = (h1, c)" by force
  show ?case
  proof (cases c)
    case Continue
    with Cons p show ?thesis by simp
  next
    case Return
    with Cons.prems p have "h' = h1" by simp
    with p Return show ?thesis using process_line_Return by blast
  qed
qed

lemma done_line:
  "startsWith l (js ''data: '') \<Longrightarrow> trim (slice l 6) = js ''[DONE]'' \<Longrightarrow>
   process_line h l = (complete h, Return)"
  by (simp add: process_line_def data_prefix_not_blank)

lemma process_lines_snoc_done:
  assumes "startsWith l (js ''data: '')" "trim (slice l 6) = js ''[DONE]''"
  shows "snd (process_lines h (pre @ [l])) = Return"
  using assms by (auto simp: process_lines_append done_line split: prod.splits ctl.splits)

lemmas hook_defs = process_line_def handle_data_def complete_def updateConnectionStatus_def
  read_step_def startStreaming_def begin_request_def on_response_def response_ok_def
  initial_hook_def merge_def set_props_def own_props_opt_def stream_catch_def start_catch_def
  is_abort_def stopStreaming_def abort_def unmount_def render_def Let_def

lemma one_record_run:
  \<open>startStreaming (render initial_hook) initial_hook (FetchResponse 200 (Some [ReadValue (js ''data: {"a":1}\<newline>'')])) =
     \<lparr>data = [(js ''a'', JNumber (js ''1''))], isStreaming = True, error = None,
      connectionStatus = Connected, abortController = Some False,
      calls = [OnStatusChange Connecting, Fetch, OnStatusChange Connected,
               OnData (Some (JObject [(js ''a'', JNumber (js ''1''))]))]\<rparr>\<close>
  by (simp add: hook_defs str_defs lex_defs)

section \<open>The terminator sentinel\<close>

text \<open>
  A sentinel that lies inside one chunk.  When a session is still reading and a chunk
  arrives one of whose pieces is \<^verbatim>\<open>data: [DONE]\<close> (the piece starts with the record prefix
  and what follows it trims to the sentinel), the loop returns with status
  \<open>Completed\<close> and \<open>isStreaming\<close> cleared.  The outcome is that of the pieces up to the
  sentinel: neither the pieces after it in the chunk nor any later read has an effect.
\<close>

theorem done_sentinel_ends_session:
  assumes "startsWith l (js ''data: '')" and "trim (slice l 6) = js ''[DONE]''"
    and "split_lines chunk = pre @ l # post"
    and "snd (processStream h before) = Continue"
  shows "processStream h (before @ ReadValue chunk # rest) =
           process_lines (fst (processStream h before)) (pre @ [l]) \<and>
         snd (processStream h (before @ ReadValue chunk # rest)) = Return \<and>
         connectionStatus (fst (processStream h (before @ ReadValue chunk # rest))) = Completed \<and>
         \<not> isStreaming (fst (processStream h (before @ ReadValue chunk # rest)))"
proof -
  obtain h1 where b: "processStream h before = (h1, Continue)"
    using assms(4) by (cases "processStream h before") auto
  obtain h2 where p: "process_lines h1 (pre @ [l]) = (h2, Return)"
    using process_lines_snoc_done [OF assms(1,2), of h1 pre]
    by (cases "process_lines h1 (pre @ [l])") auto
  have "process_lines h1 (pre @ l # post) = (h2, Return)"
    using p process_lines_append [of h1 "pre @ [l]" post] by simp
  then have e: "processStream h (before @ ReadValue chunk # rest) = (h2, Return)"
    using b assms(3) by (simp add: processStream_append read_step_def)
  show ?thesis
    using e p b process_lines_Return [OF p] by simp
qed

theorem done_sentinel_ends_session_witness:
  \<open>startsWith (js ''data: [DONE]'') (js ''data: '') \<and>
   trim (slice (js ''data: [DONE]'') 6) = js ''[DONE]'' \<and>
   split_lines (js ''data: [DONE]\<newline>data: {"b":2}\<newline>'') =
     [] @ js ''data: [DONE]'' # [js ''data: {"b":2}'', []] \<and>
   snd (processStream (startStreaming (render initial_hook) initial_hook (FetchResponse 200 (Some [])))
          [ReadValue (js ''data: {"a":1}\<newline>'')]) = Continue \<and>
   snd (processStream (startStreaming (render initial_hook) initial_hook (FetchResponse 200 (Some [])))
          ([ReadValue (js ''data: {"a":1}\<newline>'')] @
           ReadValue (js ''data: [DONE]\<newline>data: {"b":2}\<newline>'') #
           [ReadValue (js ''data: {"c":3}\<newline>''), ReadDone])) = Return \<and>
   connectionStatus (fst (processStream (startStreaming (render initial_hook) initial_hook (FetchResponse 200 (Some [])))
          ([ReadValue (js ''data: {"a":1}\<newline>'')] @
           ReadValue (js ''data: [DONE]\<newline>data: {"b":2}\<newline>'') #
           [ReadValue (js ''data: {"c":3}\<newline>''), ReadDone]))) = Completed\<close>
proof -
  have a: \<open>startsWith (js ''data: [DONE]'') (js ''data: '')\<close>
    by (simp add: str_defs)
  have b: \<open>trim (slice (js ''data: [DONE]'') 6) = js ''[DONE]''\<close>
    by (simp add: str_defs)
  have c: \<open>split_lines (js ''data: [DONE]\<newline>data: {"b":2}\<newline>'') =
     [] @ js ''data: [DONE]'' # [js ''data: {"b":2}'', []]\<close>
    by (simp add: js_def)
  have d: \<open>snd (processStream (startStreaming (render initial_hook) initial_hook (FetchResponse 200 (Some [])))
          [ReadValue (js ''data: {"a":1}\<newline>'')]) = Continue\<close>
    by (simp add: hook_defs str_defs lex_defs)
  show ?thesis
    using a b c d
      done_sentinel_ends_session [OF a b c d, of \<open>[ReadValue (js ''data: {"c":3}\<newline>''), ReadDone]\<close>]
    by blast
qed

text \<open>
  C4.  The claim asks that a line \<^verbatim>\<open>data: [DONE]\<close> received at any point ends the
  session and that nothing after it is processed.  When the line arrives as the end of
  one chunk and the start of the next, \<^verbatim>\<open>data: [DO\<close> and then \<^verbatim>\<open>NE]\<close> followed by the line
  \<^verbatim>\<open>data: {"b":2}\<close>, no piece is the sentinel: the first piece is rejected by
  \<^verbatim>\<open>JSON.parse\<close>, the second lacks the record prefix, and the record after the sentinel is
  merged.  The session is still connected and waits for the next read.
\<close>

theorem sentinel_split_across_chunks_is_missed:
  \<open>startStreaming (render initial_hook) initial_hook
     (FetchResponse 200
        (Some [ReadValue (js ''data: [DO''),
               ReadValue (js ''NE]\<newline>data: {"b":2}\<newline>'')])) =
     \<lparr>data = [(js ''b'', JNumber (js ''2''))], isStreaming = True, error = None,
      connectionStatus = Connected, abortController = Some False,
      calls = [OnStatusChange Connecting, Fetch, OnStatusChange Connected,
               OnData (Some (JObject [(js ''b'', JNumber (js ''2''))]))]\<rparr>\<close>
  by (simp add: hook_defs str_defs lex_defs)

section \<open>Malformed records\<close>

lemma malformed_line:
  "startsWith l (js ''data: '') \<Longrightarrow> JSON_parse (trim (slice l 6)) = None \<Longrightarrow>
   trim (slice l 6) \<noteq> js ''[DONE]'' \<Longrightarrow> process_line h l = (h, Continue)"
  by (simp add: process_line_def data_prefix_not_blank)

text \<open>
  C6.  A line that carries the record prefix and whose payload \<^verbatim>\<open>JSON.parse\<close> rejects
  (and that is not the sentinel) leaves the hook exactly as it was: same status, same
  error, same data, no observer called, and the loop goes on.  The lines around it
  in the chunk, and the later reads, are processed as if the line were not there.
\<close>

theorem malformed_json_line_is_skipped:
  assumes "startsWith l (js ''data: '')"
    and "JSON_parse (trim (slice l 6)) = None"
    and "trim (slice l 6) \<noteq> js ''[DONE]''"
    and "split_lines chunk = pre @ l # post"
  shows "process_line h l = (h, Continue) \<and>
         process_lines h (pre @ l # post) = process_lines h (pre @ post) \<and>
         processStream h (ReadValue chunk # rest) =
           (case process_lines h (pre @ post) of
              (h', Return) \<Rightarrow> (h', Return)
            | (h', Continue) \<Rightarrow> processStream h' rest)"
proof -
  have a: "process_line h' l = (h', Continue)" for h'
    using assms(1-3) by (rule malformed_line)
  have c: "process_lines h (pre @ l # post) = process_lines h (pre @ post)"
    by (simp add: process_lines_append a split: prod.splits ctl.splits)
  show ?thesis
    using a c assms(4) by (simp add: read_step_def)
qed

theorem malformed_json_line_is_skipped_witness:
  \<open>startsWith (js ''data: {bad json'') (js ''data: '') \<and>
   JSON_parse (trim (slice (js ''data: {bad json'') 6)) = None \<and>
   trim (slice (js ''data: {bad json'') 6) \<noteq> js ''[DONE]'' \<and>
   split_lines (js ''data: {"a":1}\<newline>data: {bad json\<newline>data: {"b":2}\<newline>'') =
     [js ''data: {"a":1}''] @ js ''data: {bad json'' # [js ''data: {"b":2}'', []] \<and>
   process_line (startStreaming (render initial_hook) initial_hook (FetchResponse 200 (Some []))) (js ''data: {bad json'') =
     (startStreaming (render initial_hook) initial_hook (FetchResponse 200 (Some [])), Continue) \<and>
   processStream (startStreaming (render initial_hook) initial_hook (FetchResponse 200 (Some [])))
     (ReadValue (js ''data: {"a":1}\<newline>data: {bad json\<newline>data: {"b":2}\<newline>'') # [ReadDone]) =
     (case process_lines (startStreaming (render initial_hook) initial_hook (FetchResponse 200 (Some [])))
             ([js ''data: {"a":1}''] @ [js ''data: {"b":2}'', []]) of
        (h', Return) \<Rightarrow> (h', Return)
      | (h', Continue) \<Rightarrow> processStream h' [ReadDone]) \<and>
   data (fst (processStream (startStreaming (render initial_hook) initial_hook (FetchResponse 200 (Some [])))
     (ReadValue (js ''data: {"a":1}\<newline>data: {bad json\<newline>data: {"b":2}\<newline>'') # [ReadDone]))) =
     [(js ''a'', JNumber (js ''1'')), (js ''b'', JNumber (js ''2''))] \<and>
   connectionStatus (fst (processStream (startStreaming (render initial_hook) initial_hook (FetchResponse 200 (Some [])))
     (ReadValue (js ''data: {"a":1}\<newline>data: {bad json\<newline>data: {"b":2}\<newline>'') # [ReadDone]))) =
     Completed\<close>
proof -
  have a: \<open>startsWith (js ''data: {bad json'') (js ''data: '')\<close>
    by (simp add: str_defs)
  have b: \<open>JSON_parse (trim (slice (js ''data: {bad json'') 6)) = None\<close>
    by (simp add: str_defs lex_defs)
  have c: \<open>trim (slice (js ''data: {bad json'') 6) \<noteq> js ''[DONE]''\<close>
    by (simp add: str_defs)
  have d: \<open>split_lines (js ''data: {"a":1}\<newline>data: {bad json\<newline>data: {"b":2}\<newline>'') =
     [js ''data: {"a":1}''] @ js ''data: {bad json'' # [js ''data: {"b":2}'', []]\<close>
    by (simp add: js_def)
  have e: \<open>process_lines (startStreaming (render initial_hook) initial_hook (FetchResponse 200 (Some [])))
             ([js ''data: {"a":1}''] @ [js ''data: {"b":2}'', []]) =
     ((startStreaming (render initial_hook) initial_hook (FetchResponse 200 (Some [])))
        \<lparr>data := [(js ''a'', JNumber (js ''1'')), (js ''b'', JNumber (js ''2''))],
         calls := calls (startStreaming (render initial_hook) initial_hook (FetchResponse 200 (Some []))) @
           [OnData (Some (JObject [(js ''a'', JNumber (js ''1''))])),
            OnData (Some (JObject [(js ''b'', JNumber (js ''2''))]))]\<rparr>, Continue)\<close>
    by (simp add: hook_defs str_defs lex_defs)
  note t = malformed_json_line_is_skipped [OF a b c d,
      of \<open>startStreaming (render initial_hook) initial_hook (FetchResponse 200 (Some []))\<close> \<open>[ReadDone]\<close>]
  have f: \<open>processStream (startStreaming (render initial_hook) initial_hook (FetchResponse 200 (Some [])))
     (ReadValue (js ''data: {"a":1}\<newline>data: {bad json\<newline>data: {"b":2}\<newline>'') # [ReadDone]) =
     (complete ((startStreaming (render initial_hook) initial_hook (FetchResponse 200 (Some [])))
        \<lparr>data := [(js ''a'', JNumber (js ''1'')), (js ''b'', JNumber (js ''2''))],
         calls := calls (startStreaming (render initial_hook) initial_hook (FetchResponse 200 (Some []))) @
           [OnData (Some (JObject [(js ''a'', JNumber (js ''1''))])),
            OnData (Some (JObject [(js ''b'', JNumber (js ''2''))]))]\<rparr>), Return)\<close>
    using t unfolding e by (simp add: read_step_def)
  have g: \<open>data (fst (processStream (startStreaming (render initial_hook) initial_hook (FetchResponse 200 (Some [])))
     (ReadValue (js ''data: {"a":1}\<newline>data: {bad json\<newline>data: {"b":2}\<newline>'') # [ReadDone]))) =
     [(js ''a'', JNumber (js ''1'')), (js ''b'', JNumber (js ''2''))]\<close>
    unfolding f by (simp add: complete_def updateConnectionStatus_def)
  have h: \<open>connectionStatus (fst (processStream (startStreaming (render initial_hook) initial_hook (FetchResponse 200 (Some [])))
     (ReadValue (js ''data: {"a":1}\<newline>data: {bad json\<newline>data: {"b":2}\<newline>'') # [ReadDone]))) =
     Completed\<close>
    unfolding f by (simp add: complete_status)
  show ?thesis
    using a b c d t g h by blast
qed

section \<open>Starting and stopping\<close>

text \<open>
  The guard of \<^verbatim>\<open>startStreaming\<close> works on the \<open>state\<close> of the render that created the
  function: when that \<open>state\<close> has \<open>isStreaming\<close> set, the call changes nothing and
  \<^verbatim>\<open>fetch\<close> is not called.
\<close>

lemma start_guard_on_render_state:
  "isStreaming state \<Longrightarrow> startStreaming state h fr = h"
  by (simp add: startStreaming_def)

text \<open>
  C7.  The claim asks that \<^verbatim>\<open>startStreaming\<close> during an active session changes nothing
  and issues no request.  A \<^verbatim>\<open>startStreaming\<close> created by the idle render and called
  again while its session is active (status \<open>Connected\<close>, \<open>isStreaming\<close> set, one record
  merged) still sees \<^verbatim>\<open>state.isStreaming\<close> clear: it passes the guard, empties the data,
  sets the status back to \<open>Connecting\<close> and calls \<^verbatim>\<open>fetch\<close> a second time.
\<close>

theorem stale_start_passes_guard:
  \<open>isStreaming (startStreaming (render initial_hook) initial_hook
      (FetchResponse 200 (Some [ReadValue (js ''data: {"a":1}\<newline>'')]))) \<and>
   connectionStatus (startStreaming (render initial_hook) initial_hook
      (FetchResponse 200 (Some [ReadValue (js ''data: {"a":1}\<newline>'')]))) = Connected \<and>
   begin_request (startStreaming (render initial_hook) initial_hook
      (FetchResponse 200 (Some [ReadValue (js ''data: {"a":1}\<newline>'')]))) =
     \<lparr>data = [], isStreaming = True, error = None, connectionStatus = Connecting,
      abortController = Some False,
      calls = [OnStatusChange Connecting, Fetch, OnStatusChange Connected,
               OnData (Some (JObject [(js ''a'', JNumber (js ''1''))])),
               OnStatusChange Connecting, Fetch]\<rparr> \<and>
   startStreaming (render initial_hook)
     (startStreaming (render initial_hook) initial_hook
        (FetchResponse 200 (Some [ReadValue (js ''data: {"a":1}\<newline>'')])))
     (FetchResponse 200 (Some [])) =
     \<lparr>data = [], isStreaming = True, error = None, connectionStatus = Connected,
      abortController = Some False,
      calls = [OnStatusChange Connecting, Fetch, OnStatusChange Connected,
               OnData (Some (JObject [(js ''a'', JNumber (js ''1''))])),
               OnStatusChange Connecting, Fetch, OnStatusChange Connected]\<rparr>\<close>
  unfolding one_record_run
  by (simp add: startStreaming_def render_def initial_hook_def begin_request_def
      on_response_def response_ok_def updateConnectionStatus_def Let_def)

text \<open>
  C10.  \<^verbatim>\<open>stopStreaming\<close> on an idle hook with \<open>isStreaming\<close> clear is not a no-op: the
  status becomes \<open>Stopped\<close> and \<^verbatim>\<open>onStatusChange\<close> is called once, with \<open>Stopped\<close>.
\<close>

theorem stop_when_idle_sets_stopped:
  assumes "connectionStatus h = Idle" and "\<not> isStreaming h"
  shows "connectionStatus (stopStreaming h) = Stopped \<and>
         calls (stopStreaming h) = calls h @ [OnStatusChange Stopped] \<and>
         stopStreaming h \<noteq> h"
proof -
  have "connectionStatus (stopStreaming h) = Stopped"
    by (simp add: stopStreaming_def updateConnectionStatus_def)
  moreover have "calls (stopStreaming h) = calls h @ [OnStatusChange Stopped]"
    by (simp add: stopStreaming_def updateConnectionStatus_def abort_def)
  moreover have "stopStreaming h \<noteq> h"
    using calculation(1) assms(1) by auto
  ultimately show ?thesis by blast
qed

theorem stop_when_idle_sets_stopped_witness:
  "connectionStatus initial_hook = Idle \<and> \<not> isStreaming initial_hook \<and>
   connectionStatus (stopStreaming initial_hook) = Stopped \<and>
   calls (stopStreaming initial_hook) = calls initial_hook @ [OnStatusChange Stopped] \<and>
   stopStreaming initial_hook \<noteq> initial_hook"
proof -
  have a: "connectionStatus initial_hook = Idle" by (simp add: initial_hook_def)
  have b: "\<not> isStreaming initial_hook" by (simp add: initial_hook_def)
  show ?thesis
    using a b stop_when_idle_sets_stopped [OF a b] by blast
qed

section \<open>Rejected responses\<close>

lemma Error_is_not_abort: "\<not> is_abort (ErrorObject (js ''Error'') m)"
  by (simp add: is_abort_def js_def)

lemma start_catch_error:
  "\<not> is_abort e \<Longrightarrow>
   start_catch h e =
     h\<lparr>error := Some (js ''Failed to start streaming: '' @
                      (case e of ErrorObject n m \<Rightarrow> m | NotAnError \<Rightarrow> js ''Unknown error'')),
       isStreaming := False, connectionStatus := Error,
       calls := calls h @
         [OnStatusChange Error,
          OnError (js ''Failed to start streaming: '' @
                   (case e of ErrorObject n m \<Rightarrow> m | NotAnError \<Rightarrow> js ''Unknown error''))]\<rparr>"
  by (simp add: start_catch_def updateConnectionStatus_def Let_def)

text \<open>
  C8.  When \<^verbatim>\<open>startStreaming\<close> passes its guard (the render's \<open>state\<close> has \<open>isStreaming\<close>
  clear) and the response has a status outside
  200 to 299, or has no body, the session ends with status \<open>Error\<close> and \<open>isStreaming\<close>
  clear.  The error message is \<^verbatim>\<open>Failed to start streaming: \<close> followed by
  \<^verbatim>\<open>HTTP error! status: \<close> and the decimal status, or by \<^verbatim>\<open>No response body\<close>.  The data
  is the empty object the start left, and the only calls are the two status changes,
  \<^verbatim>\<open>fetch\<close> and \<^verbatim>\<open>onError\<close>: \<^verbatim>\<open>onData\<close> is never called.
\<close>

theorem rejected_response_ends_in_error:
  assumes "\<not> isStreaming state" and "\<not> response_ok status \<or> body = None"
  shows "let h' = startStreaming state h (FetchResponse status body);
             msg = js ''Failed to start streaming: '' @
                   (if \<not> response_ok status then js ''HTTP error! status: '' @ digits status
                    else js ''No response body'')
         in connectionStatus h' = Error \<and> error h' = Some msg \<and> \<not> isStreaming h' \<and>
            data h' = [] \<and>
            calls h' = calls h @ [OnStatusChange Connecting, Fetch, OnStatusChange Error, OnError msg]"
proof (cases "response_ok status")
  case False
  then show ?thesis
    using assms(1)
    by (simp add: startStreaming_def on_response_def start_catch_error Error_is_not_abort
        begin_request_def updateConnectionStatus_def Let_def)
next
  case True
  with assms(2) have "body = None" by simp
  with True show ?thesis
    using assms(1)
    by (simp add: startStreaming_def on_response_def start_catch_error Error_is_not_abort
        begin_request_def updateConnectionStatus_def Let_def)
qed

theorem rejected_response_ends_in_error_witness:
  \<open>\<not> isStreaming (render initial_hook) \<and>
   \<not> response_ok 500 \<and>
   connectionStatus (startStreaming (render initial_hook) initial_hook
      (FetchResponse 500 (Some [ReadValue (js ''data: {"a":1}\<newline>''), ReadDone]))) = Error \<and>
   error (startStreaming (render initial_hook) initial_hook
      (FetchResponse 500 (Some [ReadValue (js ''data: {"a":1}\<newline>''), ReadDone]))) =
     Some (js ''Failed to start streaming: HTTP error! status: 500'') \<and>
   data (startStreaming (render initial_hook) initial_hook
      (FetchResponse 500 (Some [ReadValue (js ''data: {"a":1}\<newline>''), ReadDone]))) = [] \<and>
   calls (startStreaming (render initial_hook) initial_hook
      (FetchResponse 500 (Some [ReadValue (js ''data: {"a":1}\<newline>''), ReadDone]))) =
     [OnStatusChange Connecting, Fetch, OnStatusChange Error,
      OnError (js ''Failed to start streaming: HTTP error! status: 500'')]\<close>
proof -
  have a: "\<not> isStreaming (render initial_hook)"
    by (simp add: render_def initial_hook_def)
  have b: \<open>\<not> response_ok 500 \<or> Some [ReadValue (js ''data: {"a":1}\<newline>''), ReadDone] = None\<close>
    by (simp add: response_ok_def)
  have c: "\<not> response_ok 500"
    by (simp add: response_ok_def)
  have d: "js ''Failed to start streaming: '' @ js ''HTTP error! status: '' @ digits 500 =
           js ''Failed to start streaming: HTTP error! status: 500''"
    by (simp add: js_def digits.simps)
  have e: "calls initial_hook = []"
    by (simp add: initial_hook_def)
  show ?thesis
    using rejected_response_ends_in_error [OF a b] a b c d e
    by (simp add: Let_def)
qed

section \<open>Cancellation\<close>




text \<open>
  C9.  The two \<^verbatim>\<open>catch\<close> branches for an \<^verbatim>\<open>AbortError\<close> set the status to \<open>Stopped\<close> and
  return without clearing \<open>isStreaming\<close>.  When the abort comes from the cleanup of the
  effect, which only aborts the controller, a session that was reading (or still
  waiting for the response) ends with status \<open>Stopped\<close> and \<open>isStreaming\<close> still set.
\<close>

theorem teardown_abort_keeps_isStreaming:
  "connectionStatus (fst (read_step
      (unmount (startStreaming (render initial_hook) initial_hook (FetchResponse 200 (Some []))))
      (ReadThrows (ErrorObject (js ''AbortError'') (js ''The operation was aborted.''))))) = Stopped \<and>
   isStreaming (fst (read_step
      (unmount (startStreaming (render initial_hook) initial_hook (FetchResponse 200 (Some []))))
      (ReadThrows (ErrorObject (js ''AbortError'') (js ''The operation was aborted.''))))) \<and>
   connectionStatus (on_response (unmount (begin_request initial_hook))
      (FetchThrows (ErrorObject (js ''AbortError'') (js ''The operation was aborted.'')))) = Stopped \<and>
   isStreaming (on_response (unmount (begin_request initial_hook))
      (FetchThrows (ErrorObject (js ''AbortError'') (js ''The operation was aborted.''))))"
  by (simp add: hook_defs)

section \<open>The finish record\<close>

lemma finish_json:
  \<open>JSON_parse (js ''{"type":"finish"}'') = Some (JObject [(js ''type'', JString (js ''finish''))])\<close>
  by (simp add: js_def lex_defs)

lemma finish_chunk_lines:
  \<open>split_lines (js ''data: {"type":"finish"}\<newline>'') = [js ''data: {"type":"finish"}'', []]\<close>
  by (simp add: js_def)

lemma finish_line:
  \<open>process_line h (js ''data: {"type":"finish"}'') =
     (complete (h\<lparr>data := merge (data h) [(js ''type'', JString (js ''finish''))],
                  calls := calls h @ [OnData (Some (JObject [(js ''type'', JString (js ''finish''))]))]\<rparr>),
      Return)\<close>
proof -
  have a: \<open>trim (js ''data: {"type":"finish"}'') \<noteq> []\<close>
    by (simp add: str_defs)
  have b: \<open>startsWith (js ''data: {"type":"finish"}'') (js ''data: '')\<close>
    by (simp add: str_defs)
  have c: \<open>trim (slice (js ''data: {"type":"finish"}'') 6) = js ''{"type":"finish"}''\<close>
    by (simp add: str_defs)
  have d: \<open>js ''{"type":"finish"}'' \<noteq> js ''[DONE]''\<close>
    by (simp add: js_def)
  have e: \<open>js ''finish'' \<noteq> js ''object''\<close>
    by (simp add: js_def)
  show ?thesis
    by (simp add: process_line_def a b c d e finish_json handle_data_def Let_def)
qed

text \<open>
  C3, as the claim states it, at the claim's own input: the accumulated result is
  not empty after the chunk \<^verbatim>\<open>data: {"type":"finish"}\<close>.
\<close>

theorem finish_record_is_merged_counterexample:
  \<open>data (startStreaming (render initial_hook) initial_hook
      (FetchResponse 200 (Some [ReadValue (js ''data: {"type":"finish"}\<newline>'')]))) \<noteq> []\<close>
  by (simp add: startStreaming_def render_def on_response_def response_ok_def read_step_def
      finish_chunk_lines finish_line complete_def updateConnectionStatus_def Let_def
      initial_hook_def begin_request_def merge_def set_props_def)

text \<open>
  C3, amended.  The chunk \<^verbatim>\<open>data: {"type":"finish"}\<close> ends the loop with status
  \<open>Completed\<close>, straight from \<open>Connected\<close>; before that the record itself is merged as
  a plain object and \<^verbatim>\<open>onData\<close> is called with it, so the accumulated result of the run
  is the object with the one member \<^verbatim>\<open>type\<close>.
\<close>

theorem finish_record_completes_after_merge:
  \<open>read_step h (ReadValue (js ''data: {"type":"finish"}\<newline>'')) =
     (complete (h\<lparr>data := merge (data h) [(js ''type'', JString (js ''finish''))],
                  calls := calls h @ [OnData (Some (JObject [(js ''type'', JString (js ''finish''))]))]\<rparr>),
      Return) \<and>
   startStreaming (render initial_hook) initial_hook
      (FetchResponse 200 (Some [ReadValue (js ''data: {"type":"finish"}\<newline>'')])) =
     \<lparr>data = [(js ''type'', JString (js ''finish''))], isStreaming = False, error = None,
      connectionStatus = Completed, abortController = Some False,
      calls = [OnStatusChange Connecting, Fetch, OnStatusChange Connected,
               OnData (Some (JObject [(js ''type'', JString (js ''finish''))])),
               OnStatusChange Completed, OnComplete]\<rparr>\<close>
proof -
  have a: \<open>read_step h (ReadValue (js ''data: {"type":"finish"}\<newline>'')) =
     (complete (h\<lparr>data := merge (data h) [(js ''type'', JString (js ''finish''))],
                  calls := calls h @ [OnData (Some (JObject [(js ''type'', JString (js ''finish''))]))]\<rparr>),
      Return)\<close> for h
    by (simp add: read_step_def finish_chunk_lines finish_line)
  have b: \<open>startStreaming (render initial_hook) initial_hook
      (FetchResponse 200 (Some [ReadValue (js ''data: {"type":"finish"}\<newline>'')])) =
     \<lparr>data = [(js ''type'', JString (js ''finish''))], isStreaming = False, error = None,
      connectionStatus = Completed, abortController = Some False,
      calls = [OnStatusChange Connecting, Fetch, OnStatusChange Connected,
               OnData (Some (JObject [(js ''type'', JString (js ''finish''))])),
               OnStatusChange Completed, OnComplete]\<rparr>\<close>
    by (simp add: startStreaming_def render_def on_response_def response_ok_def a complete_def
        updateConnectionStatus_def Let_def initial_hook_def begin_request_def merge_def
        set_props_def)
  show ?thesis using a b by blast
qed

section \<open>Records of kind \<^verbatim>\<open>object\<close>\<close>

lemma object_json:
  \<open>JSON_parse (js ''{"type":"object","object":{"a":1}}'') =
     Some (JObject [(js ''type'', JString (js ''object'')),
                    (js ''object'', JObject [(js ''a'', JNumber (js ''1''))])])\<close>
  by (simp add: js_def lex_defs)

lemma object_line_facts:
  \<open>startsWith (js ''data: {"type":"object","object":{"a":1}}'') (js ''data: '')\<close>
  \<open>trim (slice (js ''data: {"type":"object","object":{"a":1}}'') 6) =
     js ''{"type":"object","object":{"a":1}}''\<close>
  by (simp_all add: str_defs)

lemma parsed_is_not_done: "JSON_parse s = Some d \<Longrightarrow> s \<noteq> js ''[DONE]''"
  using done_not_json by auto

text \<open>
  C2, as the claim states it, at a record of kind \<^verbatim>\<open>object\<close> with the nested payload
  \<^verbatim>\<open>{"a":1}\<close>: the accumulated result is not the merge of the nested payload alone, and
  the observer is not called with the nested payload alone.
\<close>

theorem nested_payload_instead_of_outer_counterexample:
  \<open>data (fst (process_line initial_hook (js ''data: {"type":"object","object":{"a":1}}''))) \<noteq>
     merge (data initial_hook) [(js ''a'', JNumber (js ''1''))] \<and>
   calls (fst (process_line initial_hook (js ''data: {"type":"object","object":{"a":1}}''))) \<noteq>
     calls initial_hook @ [OnData (Some (JObject [(js ''a'', JNumber (js ''1''))]))]\<close>
proof -
  have b: \<open>JSON_parse (trim (slice (js ''data: {"type":"object","object":{"a":1}}'') 6)) =
     Some (JObject [(js ''type'', JString (js ''object'')),
                    (js ''object'', JObject [(js ''a'', JNumber (js ''1''))])])\<close>
    by (simp add: object_line_facts(2) object_json)
  have d: \<open>js ''object'' \<noteq> js ''type''\<close> \<open>js ''a'' \<noteq> js ''type''\<close> \<open>js ''a'' \<noteq> js ''object''\<close>
    by (simp_all add: js_def)
  have t: \<open>trim (js ''data: {"type":"object","object":{"a":1}}'') \<noteq> []\<close>
    using object_line_facts(1) by (rule data_prefix_not_blank)
  have n: \<open>js ''{"type":"object","object":{"a":1}}'' \<noteq> js ''[DONE]''\<close>
    by (simp add: js_def)
  show ?thesis
    using b n
    by (simp add: process_line_def t object_line_facts handle_data_def Let_def d
        merge_def set_props_def own_props_opt_def initial_hook_def)
qed

text \<open>
  C2, amended.  For a record whose parsed value is an object with \<^verbatim>\<open>type\<close> equal to
  \<^verbatim>\<open>"object"\<close>, the outer object is merged first and \<^verbatim>\<open>onData\<close> is called with it; then
  the properties of its \<^verbatim>\<open>object\<close> member are merged over that and \<^verbatim>\<open>onData\<close> is called
  with that member (with \<^verbatim>\<open>undefined\<close> when there is none).  The loop goes on.
\<close>

theorem object_record_merges_outer_then_nested:
  assumes "startsWith l (js ''data: '')"
    and "JSON_parse (trim (slice l 6)) = Some (JObject kvs)"
    and "map_of kvs (js ''type'') = Some (JString (js ''object''))"
  shows "process_line h l =
           (h\<lparr>data := merge (merge (data h) kvs) (own_props_opt (map_of kvs (js ''object''))),
              calls := calls h @ [OnData (Some (JObject kvs)), OnData (map_of kvs (js ''object''))]\<rparr>,
            Continue)"
  using assms parsed_is_not_done [OF assms(2)]
  by (simp add: process_line_def data_prefix_not_blank handle_data_def Let_def)

theorem object_record_merges_outer_then_nested_witness:
  \<open>startsWith (js ''data: {"type":"object","object":{"a":1}}'') (js ''data: '') \<and>
   JSON_parse (trim (slice (js ''data: {"type":"object","object":{"a":1}}'') 6)) =
     Some (JObject [(js ''type'', JString (js ''object'')),
                    (js ''object'', JObject [(js ''a'', JNumber (js ''1''))])]) \<and>
   map_of [(js ''type'', JString (js ''object'')),
           (js ''object'', JObject [(js ''a'', JNumber (js ''1''))])] (js ''type'') =
     Some (JString (js ''object'')) \<and>
   process_line initial_hook (js ''data: {"type":"object","object":{"a":1}}'') =
     (initial_hook
        \<lparr>data := [(js ''type'', JString (js ''object'')),
                  (js ''object'', JObject [(js ''a'', JNumber (js ''1''))]),
                  (js ''a'', JNumber (js ''1''))],
         calls := [OnData (Some (JObject [(js ''type'', JString (js ''object'')),
                                          (js ''object'', JObject [(js ''a'', JNumber (js ''1''))])])),
                   OnData (Some (JObject [(js ''a'', JNumber (js ''1''))]))]\<rparr>,
      Continue)\<close>
proof -
  note a = object_line_facts(1)
  have b: \<open>JSON_parse (trim (slice (js ''data: {"type":"object","object":{"a":1}}'') 6)) =
     Some (JObject [(js ''type'', JString (js ''object'')),
                    (js ''object'', JObject [(js ''a'', JNumber (js ''1''))])])\<close>
    by (simp add: object_line_facts(2) object_json)
  have c: \<open>map_of [(js ''type'', JString (js ''object'')),
           (js ''object'', JObject [(js ''a'', JNumber (js ''1''))])] (js ''type'') =
     Some (JString (js ''object''))\<close>
    by simp
  have d: \<open>js ''object'' \<noteq> js ''type''\<close> \<open>js ''a'' \<noteq> js ''type''\<close> \<open>js ''a'' \<noteq> js ''object''\<close>
    by (simp_all add: js_def)
  show ?thesis
    using object_record_merges_outer_then_nested [OF a b c, of initial_hook] a b c d
    by (simp add: merge_def set_props_def own_props_opt_def initial_hook_def)
qed

section \<open>Chunk boundaries\<close>

text \<open>
  Plain records within the lines of one chunk are merged from left to right, each
  followed by its \<^verbatim>\<open>onData\<close> call, and a chunk boundary right after a line feed makes
  no difference.
\<close>

lemma plain_record_line:
  assumes "plain_record l kvs"
  shows "process_line h l =
           (h\<lparr>data := merge (data h) kvs, calls := calls h @ [OnData (Some (JObject kvs))]\<rparr>,
            Continue)"
proof -
  have p: "JSON_parse (trim (slice l 6)) = Some (JObject kvs)"
    using assms by (simp add: plain_record_def)
  show ?thesis
    using assms parsed_is_not_done [OF p]
    by (simp add: plain_record_def process_line_def data_prefix_not_blank handle_data_def Let_def)
qed

lemma plain_records_merge_in_order:
  assumes "list_all2 plain_record ls objs"
  shows "process_lines h ls =
           (h\<lparr>data := fold (\<lambda>kvs acc. merge acc kvs) objs (data h),
              calls := calls h @ map (\<lambda>kvs. OnData (Some (JObject kvs))) objs\<rparr>,
            Continue)"
  using assms
proof (induction ls objs arbitrary: h rule: list_all2_induct)
  case Nil
  show ?case by simp
next
  case (Cons l kvs ls objs)
  show ?case
    by (simp add: plain_record_line [OF Cons.hyps(1)] Cons.IH)
qed

lemma split_lines_not_Nil: "split_lines s \<noteq> []"
  by (induction s) (auto simp: Let_def)

lemma split_lines_at_newline: "split_lines (a @ 10 # b) = split_lines a @ split_lines b"
proof (induction a)
  case Nil
  show ?case by simp
next
  case (Cons c a)
  show ?case
  proof (cases "c = 10")
    case True
    with Cons show ?thesis by (simp add: Let_def)
  next
    case False
    with Cons split_lines_not_Nil [of a] show ?thesis
      by (cases "split_lines a") (simp_all add: Let_def)
  qed
qed

lemma blank_line: "process_line h [] = (h, Continue)"
  by (simp add: process_line_def trim_def)

lemma chunk_boundary_after_newline:
  "processStream h (ReadValue (a @ [10]) # ReadValue b # rs) =
   processStream h (ReadValue (a @ 10 # b) # rs)"
proof -
  have l: "split_lines (a @ [10]) = split_lines a @ [[]]"
    using split_lines_at_newline [of a "[]"] by simp
  show ?thesis
    by (simp add: read_step_def l split_lines_at_newline process_lines_append blank_line
        split: prod.splits ctl.splits)
qed

text \<open>
  C1.  The claim asks for the merge of all records however the chunk boundaries fall,
  also inside a record.  The loop splits each chunk into lines by itself and keeps
  nothing for the next chunk.  When the record \<^verbatim>\<open>data: {"a":1}\<close> arrives as the two chunks
  \<^verbatim>\<open>data: {"a"\<close> and \<^verbatim>\<open>:1}\<close>, the first piece is rejected by \<^verbatim>\<open>JSON.parse\<close> and the second
  lacks the record prefix: the run completes with an empty result, where the same
  text in one chunk yields the object with \<^verbatim>\<open>a\<close>.
\<close>

theorem record_split_across_chunks_is_lost:
  \<open>data (startStreaming (render initial_hook) initial_hook
      (FetchResponse 200 (Some [ReadValue (js ''data: {"a"''), ReadValue (js '':1}\<newline>''), ReadDone]))) = [] \<and>
   connectionStatus (startStreaming (render initial_hook) initial_hook
      (FetchResponse 200 (Some [ReadValue (js ''data: {"a"''), ReadValue (js '':1}\<newline>''), ReadDone]))) = Completed \<and>
   data (startStreaming (render initial_hook) initial_hook
      (FetchResponse 200 (Some [ReadValue (js ''data: {"a":1}\<newline>''), ReadDone]))) =
     [(js ''a'', JNumber (js ''1''))]\<close>
proof -
  have a: \<open>startStreaming (render initial_hook) initial_hook
      (FetchResponse 200 (Some [ReadValue (js ''data: {"a"''), ReadValue (js '':1}\<newline>''), ReadDone])) =
     \<lparr>data = [], isStreaming = False, error = None, connectionStatus = Completed,
      abortController = Some False,
      calls = [OnStatusChange Connecting, Fetch, OnStatusChange Connected,
               OnStatusChange Completed, OnComplete]\<rparr>\<close>
    by (simp add: hook_defs str_defs lex_defs)
  have b: \<open>startStreaming (render initial_hook) initial_hook
      (FetchResponse 200 (Some [ReadValue (js ''data: {"a":1}\<newline>''), ReadDone])) =
     \<lparr>data = [(js ''a'', JNumber (js ''1''))], isStreaming = False, error = None,
      connectionStatus = Completed, abortController = Some False,
      calls = [OnStatusChange Connecting, Fetch, OnStatusChange Connected,
               OnData (Some (JObject [(js ''a'', JNumber (js ''1''))])),
               OnStatusChange Completed, OnComplete]\<rparr>\<close>
    by (simp add: hook_defs str_defs lex_defs)
  show ?thesis
    by (simp add: a b)
qed

end
